theory Spec2Isabelle
  imports
    Complex_Main
    "HOL-Library.Word"
    "HOL-Library.Char_ord"
    "HOL-Library.List_Lexorder"
    "HOL-Library.Product_Lexorder"
begin

section \<open>The questionnaire table\<close>

text \<open>
  The program (\<^verbatim>\<open>hw5_q1.py\<close>, class \<^verbatim>\<open>QuestionnaireAnalysis\<close>) keeps one pandas
  DataFrame read from a JSON file and offers five queries over it. The embedding follows
  the class method by method.

  Modelling decisions, all of them visible in the definitions below:
  \<^item> A DataFrame with the eleven columns of the schema is a list of rows; the position in
    the list is the ordinal index (the frames of the program carry a \<^verbatim>\<open>RangeIndex\<close>).
    A JSON array without objects gives a frame without columns, on which every query
    raises; such a frame is not a value of the type below.
  \<^item> A numeric cell (\<^verbatim>\<open>age\<close>, \<^verbatim>\<open>id\<close>, \<^verbatim>\<open>q1\<close> .. \<^verbatim>\<open>q5\<close>) holds a number, the text
    \<^verbatim>\<open>"nan"\<close>, or nothing (JSON \<^verbatim>\<open>null\<close> or an absent key, which pandas stores as
    NaN/None). A text cell holds a string or nothing.
  \<^item> A finite float is modelled by the rational number it denotes and the arithmetic on
    it (sum, division, rounding) is exact; NaN is the missing value.
  \<^item> DataFrames are objects with identity: the store maps an address to the contents of
    a frame and \<^verbatim>\<open>self.data\<close> holds an address. A frame that a method writes in place
    or returns as a table of the schema is allocated at a fresh address, and an
    assignment through \<^verbatim>\<open>df[...]\<close> writes at the address of \<^verbatim>\<open>df\<close>; the frames that a
    method only reads on its way are values.
\<close>

datatype numcell = Number rat | NanText | Null

type_synonym strcell = "string option"

record row =
  age :: numcell
  email :: strcell
  first_name :: strcell
  gender :: strcell
  ident :: numcell
  last_name :: strcell
  q1 :: numcell
  q2 :: numcell
  q3 :: numcell
  q4 :: numcell
  q5 :: numcell

type_synonym frame = "row list"

datatype question = Q1 | Q2 | Q3 | Q4 | Q5

text \<open>\<^verbatim>\<open>questions = ["q1", "q2", "q3", "q4", "q5"]\<close>\<close>

definition questions :: "question list" where
  "questions = [Q1, Q2, Q3, Q4, Q5]"

text \<open>\<^verbatim>\<open>row[question]\<close> and the assignment to it.\<close>

fun getq :: "question \<Rightarrow> row \<Rightarrow> numcell" where
  "getq Q1 r = q1 r"
| "getq Q2 r = q2 r"
| "getq Q3 r = q3 r"
| "getq Q4 r = q4 r"
| "getq Q5 r = q5 r"

fun setq :: "question \<Rightarrow> numcell \<Rightarrow> row \<Rightarrow> row" where
  "setq Q1 v r = r\<lparr>q1 := v\<rparr>"
| "setq Q2 v r = r\<lparr>q2 := v\<rparr>"
| "setq Q3 v r = r\<lparr>q3 := v\<rparr>"
| "setq Q4 v r = r\<lparr>q4 := v\<rparr>"
| "setq Q5 v r = r\<lparr>q5 := v\<rparr>"

section \<open>The pandas and numpy operations the program calls\<close>

text \<open>\<^verbatim>\<open>isna\<close>: NaN and None are missing, the text \<^verbatim>\<open>"nan"\<close> is a string and is not.\<close>

definition isna :: "numcell \<Rightarrow> bool" where
  "isna c = (c = Null)"

text \<open>
  \<^verbatim>\<open>df.replace("nan", np.nan)\<close>: every cell of the frame that equals the string
  \<^verbatim>\<open>"nan"\<close> becomes missing, in every column; the result is a new frame.
\<close>

definition replace_num :: "numcell \<Rightarrow> numcell" where
  "replace_num c = (if c = NanText then Null else c)"

definition replace_str :: "strcell \<Rightarrow> strcell" where
  "replace_str c = (if c = Some ''nan'' then None else c)"

definition replace_row :: "row \<Rightarrow> row" where
  "replace_row r =
     \<lparr>age = replace_num (age r), email = replace_str (email r),
      first_name = replace_str (first_name r), gender = replace_str (gender r),
      ident = replace_num (ident r), last_name = replace_str (last_name r),
      q1 = replace_num (q1 r), q2 = replace_num (q2 r), q3 = replace_num (q3 r),
      q4 = replace_num (q4 r), q5 = replace_num (q5 r)\<rparr>"

definition replace_nan :: "frame \<Rightarrow> frame" where
  "replace_nan df = map replace_row df"

text \<open>
  The numbers of a list of cells. The aggregates below skip NaN; they are only ever applied
  to a frame that \<open>replace_nan\<close> has produced, which holds no text \<^verbatim>\<open>"nan"\<close>.
\<close>

fun number_of :: "numcell \<Rightarrow> rat option" where
  "number_of (Number x) = Some x"
| "number_of NanText = None"
| "number_of Null = None"

definition present :: "numcell list \<Rightarrow> rat list" where
  "present cs = List.map_filter number_of cs"

text \<open>
  \<^verbatim>\<open>np.mean(series)\<close> dispatches to \<^verbatim>\<open>Series.mean\<close>, and a group's \<^verbatim>\<open>mean()\<close> works
  alike: the mean of the values that are present, NaN when none is.
\<close>

definition series_mean :: "numcell list \<Rightarrow> numcell" where
  "series_mean cs =
     (let xs = present cs
      in if xs = [] then Null else Number (sum_list xs / of_nat (length xs)))"

text \<open>\<^verbatim>\<open>np.nanmean\<close> over one row: the same mean, as a float that may be NaN (\<open>None\<close>).\<close>

definition nanmean :: "numcell list \<Rightarrow> rat option" where
  "nanmean cs =
     (let xs = present cs
      in if xs = [] then None else Some (sum_list xs / of_nat (length xs)))"

text \<open>
  \<^verbatim>\<open>round(decimals)\<close>: numpy scales by a power of ten, rounds to the nearest integer with
  ties going to the even one, and scales back. NaN stays NaN.
\<close>

definition rint :: "rat \<Rightarrow> int" where
  "rint x =
     (let f = \<lfloor>x\<rfloor>; d = x - of_int f
      in if d < 1 / 2 then f else if 1 / 2 < d then f + 1 else if even f then f else f + 1)"

definition np_round :: "nat \<Rightarrow> rat \<Rightarrow> rat" where
  "np_round decimals x = of_int (rint (x * 10 ^ decimals)) / 10 ^ decimals"

definition round_cell :: "nat \<Rightarrow> numcell \<Rightarrow> numcell" where
  "round_cell decimals c = (case c of Number x \<Rightarrow> Number (np_round decimals x) | _ \<Rightarrow> c)"

text \<open>\<^verbatim>\<open>df[questions] = df[questions].round(decimals)\<close>, on one row.\<close>

definition round_questions :: "nat \<Rightarrow> row \<Rightarrow> row" where
  "round_questions decimals r =
     r\<lparr>q1 := round_cell decimals (q1 r), q2 := round_cell decimals (q2 r),
       q3 := round_cell decimals (q3 r), q4 := round_cell decimals (q4 r),
       q5 := round_cell decimals (q5 r)\<rparr>"

text \<open>
  The string methods of the \<^verbatim>\<open>email\<close> column. \<^verbatim>\<open>str.contains\<close> and \<^verbatim>\<open>str.count\<close> take a
  regular expression; the three expressions of the program, \<^verbatim>\<open>"@"\<close>, \<^verbatim>\<open>"\."\<close> and
  \<^verbatim>\<open>"@\."\<close>, each denote one literal text (\<^verbatim>\<open>@\<close>, \<^verbatim>\<open>.\<close> and \<^verbatim>\<open>@.\<close>), which is what
  \<open>contains_literal\<close> searches for. \<^verbatim>\<open>str.startswith\<close> takes its argument literally, not as
  a regular expression. The argument \<^verbatim>\<open>na\<close> is the answer for a missing cell.
\<close>

fun contains_literal :: "string \<Rightarrow> string \<Rightarrow> bool" where
  "contains_literal pat [] = (pat = [])"
| "contains_literal pat (c # cs) =
     (take (length pat) (c # cs) = pat \<or> contains_literal pat cs)"

definition str_contains :: "string \<Rightarrow> bool \<Rightarrow> strcell \<Rightarrow> bool" where
  "str_contains pat na c = (case c of None \<Rightarrow> na | Some s \<Rightarrow> contains_literal pat s)"

definition str_startswith :: "string \<Rightarrow> bool \<Rightarrow> strcell \<Rightarrow> bool" where
  "str_startswith pat na c = (case c of None \<Rightarrow> na | Some s \<Rightarrow> take (length pat) s = pat)"

definition str_count :: "char \<Rightarrow> strcell \<Rightarrow> nat option" where
  "str_count ch c = (case c of None \<Rightarrow> None | Some s \<Rightarrow> Some (count_list s ch))"

text \<open>
  \<^verbatim>\<open>astype({'age': 'float'})\<close>: a number stays, the text \<^verbatim>\<open>"nan"\<close> and a missing cell
  become NaN. \<^verbatim>\<open>sort_values\<close> puts the numbers in increasing order and NaN last.
\<close>

definition astype_float :: "numcell \<Rightarrow> rat option" where
  "astype_float c = (case c of Number x \<Rightarrow> Some x | _ \<Rightarrow> None)"

definition sort_values :: "rat option list \<Rightarrow> rat option list" where
  "sort_values xs = map Some (sort (List.map_filter id xs)) @ filter (\<lambda>x. x = None) xs"

text \<open>
  \<^verbatim>\<open>value_counts(bins=[lo, hi], dropna=True).values\<close>: pandas cuts the values with
  \<^verbatim>\<open>pd.cut(values, [lo, hi], include_lowest=True)\<close>, whose one interval is closed at both
  ends, counts the values in it (NaN is in no interval), and returns no entry at all when
  the count is zero.
\<close>

definition in_bin :: "nat \<times> nat \<Rightarrow> rat option \<Rightarrow> bool" where
  "in_bin bins x =
     (case x of None \<Rightarrow> False | Some a \<Rightarrow> of_nat (fst bins) \<le> a \<and> a \<le> of_nat (snd bins))"

definition value_counts_bins :: "nat \<times> nat \<Rightarrow> rat option list \<Rightarrow> nat list" where
  "value_counts_bins bins xs =
     (let n = length (filter (in_bin bins) xs) in if n = 0 then [] else [n])"

text \<open>\<^verbatim>\<open>np.unique\<close>: the sorted values, each once.\<close>

definition np_unique :: "nat list \<Rightarrow> nat list" where
  "np_unique xs = remdups_adj (sort xs)"

section \<open>The object and the store of frames\<close>

datatype error =
  ValueError | AttributeError | KeyError | TypeError
  | FileNotFoundError | IsADirectoryError | JSONDecodeError

record state =
  data_fname :: string
  data :: "nat option"
  frames :: "frame list"

definition alloc :: "frame \<Rightarrow> state \<Rightarrow> nat \<times> state" where
  "alloc f s = (length (frames s), s\<lparr>frames := frames s @ [f]\<rparr>)"

definition frame_at :: "state \<Rightarrow> nat \<Rightarrow> frame" where
  "frame_at s a = frames s ! a"

definition store_frame :: "nat \<Rightarrow> frame \<Rightarrow> state \<Rightarrow> state" where
  "store_frame a f s = s\<lparr>frames := (frames s)[a := f]\<rparr>"

text \<open>
  The file system as the constructor and \<^verbatim>\<open>read_data\<close> see it: a path names a regular
  file, a directory, or nothing. The content of a regular file is the frame its JSON text
  describes, or nothing when the text is not JSON.
\<close>

datatype entry = RegularFile "frame option" | Directory

type_synonym filesystem = "string \<Rightarrow> entry option"

definition is_file :: "filesystem \<Rightarrow> string \<Rightarrow> bool" where
  "is_file fs p = (case fs p of Some (RegularFile _) \<Rightarrow> True | _ \<Rightarrow> False)"

text \<open>
  \<^verbatim>\<open>__init__\<close>: the object is built when the path is a regular file, with
  \<^verbatim>\<open>self.data = None\<close>; otherwise \<^verbatim>\<open>ValueError\<close> is raised. The second argument is the
  store at the time of the call.
\<close>

definition init :: "filesystem \<Rightarrow> frame list \<Rightarrow> string \<Rightarrow> error + state" where
  "init fs store fname =
     (if is_file fs fname
      then Inr \<lparr>data_fname = fname, data = None, frames = store\<rparr>
      else Inl ValueError)"

text \<open>\<^verbatim>\<open>read_data\<close>: \<^verbatim>\<open>self.data = pd.DataFrame(json.loads(self.data_fname.read_text()))\<close>.\<close>

definition read_data :: "filesystem \<Rightarrow> state \<Rightarrow> (error + unit) \<times> state" where
  "read_data fs s =
     (case fs (data_fname s) of
        None \<Rightarrow> (Inl FileNotFoundError, s)
      | Some Directory \<Rightarrow> (Inl IsADirectoryError, s)
      | Some (RegularFile None) \<Rightarrow> (Inl JSONDecodeError, s)
      | Some (RegularFile (Some t)) \<Rightarrow>
          (let (a, s) = alloc t s in (Inr (), s\<lparr>data := Some a\<rparr>)))"

text \<open>The object holds the table \<open>t\<close>: \<^verbatim>\<open>self.data\<close> is the address of a frame with rows \<open>t\<close>.\<close>

definition loaded :: "state \<Rightarrow> frame \<Rightarrow> bool" where
  "loaded s t =
     (case data s of None \<Rightarrow> False | Some a \<Rightarrow> a < length (frames s) \<and> frame_at s a = t)"

text \<open>
  What a call leaves as it was, from the state \<open>s\<close> before it to the state \<open>s'\<close> after it:
  the two attributes of the object, and every frame that the store held.
\<close>

definition keeps :: "state \<Rightarrow> state \<Rightarrow> bool" where
  "keeps s s' =
     (data_fname s' = data_fname s \<and> data s' = data s \<and>
      take (length (frames s)) (frames s') = frames s)"

section \<open>The five queries\<close>

subsection \<open>\<^verbatim>\<open>show_age_distrib\<close>\<close>

text \<open>
  The loop over \<^verbatim>\<open>range(0, 110, 10)\<close> with the counter \<^verbatim>\<open>i\<close>. The arrays \<^verbatim>\<open>hist\<close> and
  \<^verbatim>\<open>bins\<close> come from \<^verbatim>\<open>np.ndarray([10])\<close> and \<^verbatim>\<open>np.ndarray([11])\<close>, whose initial contents
  are whatever the memory held; the model starts from zeros, and \<open>age_loop_run\<close> below shows
  that the result is the same for any initial contents. The counts are stored as floats and
  are modelled as natural numbers.
\<close>

fun age_loop ::
  "rat option list \<Rightarrow> nat list \<Rightarrow> nat \<Rightarrow> nat list \<times> nat list \<Rightarrow> nat list \<times> nat list" where
  "age_loop age_data [] i (hist, bins) = (hist, bins)"
| "age_loop age_data (age_edge # edges) i (hist, bins) =
     (let bins = bins[i := age_edge];
          bins_here = (age_edge, age_edge + 9);
          hist =
            (if 0 < length (value_counts_bins bins_here age_data) \<and> i < 10
             then hist[i := value_counts_bins bins_here age_data ! 0]
             else if i < 10 then hist[i := 0] else hist)
      in age_loop age_data edges (i + 1) (hist, bins))"

text \<open>
  With \<^verbatim>\<open>self.data = None\<close> the frame \<^verbatim>\<open>pd.DataFrame(None)\<close> has no column \<^verbatim>\<open>age\<close> and
  \<^verbatim>\<open>astype\<close> raises \<^verbatim>\<open>KeyError\<close>.
\<close>

definition show_age_distrib :: "state \<Rightarrow> (error + nat list \<times> nat list) \<times> state" where
  "show_age_distrib s =
     (case data s of
        None \<Rightarrow> (Inl KeyError, s)
      | Some a \<Rightarrow>
          (let age_data = sort_values (map (\<lambda>r. astype_float (age r)) (frame_at s a));
               (hist, bins) =
                 age_loop age_data (map (\<lambda>k. 10 * k) [0..<11]) 0
                   (replicate 10 0, replicate 11 0)
           in (Inr (hist, bins), s)))"

text \<open>The age lies in one of the ten ranges that the loop counts, 0 to 9 up to 90 to 99.\<close>

definition in_some_bin :: "rat option \<Rightarrow> bool" where
  "in_some_bin x = list_ex (\<lambda>k. in_bin (10 * k, 10 * k + 9) x) [0..<10]"

subsection \<open>\<^verbatim>\<open>remove_rows_without_mail\<close>\<close>

text \<open>
  Six filters, each on the frame the one before has left; the frame that is returned is a
  new object. The fifth filter calls \<^verbatim>\<open>str.startswith('\.')\<close>: the argument is the
  two-character text backslash, dot. \<^verbatim>\<open>reset_index(drop=True)\<close> renumbers the rows, which
  the list positions already do. With \<^verbatim>\<open>self.data = None\<close> the frame has no attribute
  \<^verbatim>\<open>email\<close>.
\<close>

definition remove_rows_without_mail :: "state \<Rightarrow> (error + nat) \<times> state" where
  "remove_rows_without_mail s =
     (case data s of
        None \<Rightarrow> (Inl AttributeError, s)
      | Some a \<Rightarrow>
          (let df = frame_at s a;
               df = filter (\<lambda>r. str_contains ''@'' False (email r)) df;
               df = filter (\<lambda>r. str_contains ''.'' False (email r)) df;
               df = filter (\<lambda>r. \<not> str_contains ''@.'' False (email r)) df;
               df = filter (\<lambda>r. \<not> str_startswith ''@'' False (email r)) df;
               df = filter (\<lambda>r. \<not> str_startswith [CHR 0x5C, CHR ''.''] False (email r)) df;
               df = filter (\<lambda>r. str_count (CHR ''@'') (email r) = Some 1) df;
               (res, s) = alloc df s
           in (Inr res, s)))"

text \<open>The six tests of the method on one cell of the column \<^verbatim>\<open>email\<close>, taken together.\<close>

definition all_filters :: "strcell \<Rightarrow> bool" where
  "all_filters e =
     (str_contains ''@'' False e \<and> str_contains ''.'' False e \<and>
      \<not> str_contains ''@.'' False e \<and> \<not> str_startswith ''@'' False e \<and>
      \<not> str_startswith [CHR 0x5C, CHR ''.''] False e \<and> str_count (CHR ''@'') e = Some 1)"

subsection \<open>\<^verbatim>\<open>fill_na_with_mean\<close>\<close>

text \<open>
  \<^verbatim>\<open>df[question][index] = v\<close>, for the frame at address \<open>df\<close>. In the pandas the
  program was written for, \<^verbatim>\<open>df[question]\<close> is a view of the column and the assignment
  writes into \<^verbatim>\<open>df\<close>. The index comes from \<^verbatim>\<open>df[mask].index\<close>, so it is a row of the
  frame.
\<close>

definition set_item :: "nat \<Rightarrow> question \<Rightarrow> nat \<Rightarrow> numcell \<Rightarrow> state \<Rightarrow> state" where
  "set_item df question index v s =
     store_frame df ((frame_at s df)[index := setq question v (frame_at s df ! index)]) s"

text \<open>
  The inner loop, \<^verbatim>\<open>for index in df[mask].index\<close>: the cell is set to the mean of the
  other four question cells of the row as they are in the frame at that moment.
\<close>

fun fill_column :: "nat \<Rightarrow> question \<Rightarrow> nat list \<Rightarrow> state \<Rightarrow> state" where
  "fill_column df question [] s = s"
| "fill_column df question (index # rest) s =
     (let this_list = remove1 question questions;
          v = series_mean (map (\<lambda>c. getq c (frame_at s df ! index)) this_list)
      in fill_column df question rest (set_item df question index v s))"

text \<open>
  The outer loop, \<^verbatim>\<open>for question in questions\<close>: the mask is taken from the frame as it is
  when the question's turn comes, and its indices are appended to \<^verbatim>\<open>arr\<close>.
\<close>

fun fill_questions :: "nat \<Rightarrow> question list \<Rightarrow> nat list \<times> state \<Rightarrow> nat list \<times> state" where
  "fill_questions df [] (arr, s) = (arr, s)"
| "fill_questions df (question # rest) (arr, s) =
     (let mask = map (\<lambda>r. isna (getq question r)) (frame_at s df);
          masked = filter (\<lambda>i. mask ! i) [0..<length mask]
      in fill_questions df rest (arr @ masked, fill_column df question masked s))"

text \<open>
  \<^verbatim>\<open>self.data.replace\<close> raises \<^verbatim>\<open>AttributeError\<close> on \<^verbatim>\<open>None\<close>. The frame \<^verbatim>\<open>df\<close> is a new
  object, written in place by the loops and by the rounding; the selection of the eleven
  columns that is returned is another new object.
\<close>

definition fill_na_with_mean :: "state \<Rightarrow> (error + nat \<times> nat list) \<times> state" where
  "fill_na_with_mean s =
     (case data s of
        None \<Rightarrow> (Inl AttributeError, s)
      | Some a \<Rightarrow>
          (let (df, s) = alloc (replace_nan (frame_at s a)) s;
               (arr, s) = fill_questions df questions ([], s);
               s = store_frame df (map (round_questions 2) (frame_at s df)) s;
               (res, s) = alloc (frame_at s df) s
           in (Inr (res, np_unique (sort arr)), s)))"

text \<open>
  The imputation as the specification words it, on one row: a question field that is
  missing is replaced by the mean of the row's other question fields that are present
  (\<open>spec_impute_field\<close>), and the five fields are treated in the order q1 .. q5, each on
  the row as the earlier ones have left it (\<open>spec_impute_row\<close>). The proofs compare the
  two loops of the method with these.
\<close>

definition other_mean :: "question \<Rightarrow> row \<Rightarrow> numcell" where
  "other_mean q r = series_mean (map (\<lambda>c. getq c r) (remove1 q questions))"

definition spec_impute_field :: "question \<Rightarrow> row \<Rightarrow> row" where
  "spec_impute_field q r = (if isna (getq q r) then setq q (other_mean q r) r else r)"

definition spec_impute_row :: "row \<Rightarrow> row" where
  "spec_impute_row r = fold spec_impute_field questions r"

text \<open>
  The indices that the passes over the questions \<open>qs\<close> append to \<^verbatim>\<open>arr\<close>, as a function of
  the frame before the first of them.
\<close>

fun pass_indices :: "question list \<Rightarrow> frame \<Rightarrow> nat list" where
  "pass_indices [] t = []"
| "pass_indices (q # qs) t =
     filter (\<lambda>i. isna (getq q (t ! i))) [0..<length t] @
     pass_indices qs (map (spec_impute_field q) t)"

subsection \<open>\<^verbatim>\<open>score_subjects\<close>\<close>

text \<open>
  The column \<^verbatim>\<open>score\<close> goes through four assignments: the row means (\<^verbatim>\<open>np.nanmean\<close>),
  their floors, the choice between \<^verbatim>\<open>pd.NA\<close> and the floor for each row, and the cast to
  \<^verbatim>\<open>UInt8\<close>. After the third the column holds objects: \<^verbatim>\<open>pd.NA\<close> or a float.
\<close>

datatype score_obj = PdNA | Float "rat option"

definition np_floor :: "rat option \<Rightarrow> rat option" where
  "np_floor x = map_option (\<lambda>v. of_int \<lfloor>v\<rfloor>) x"

text \<open>\<^verbatim>\<open>row[questions].count()\<close>: the number of question cells that are not missing.\<close>

definition count_present :: "row \<Rightarrow> nat" where
  "count_present r = length (filter (\<lambda>c. \<not> isna (getq c r)) questions)"

text \<open>
  \<^verbatim>\<open>astype('UInt8')\<close>: \<^verbatim>\<open>pd.NA\<close> and NaN become the missing value of the nullable type;
  any other entry must be equal to its cast to an unsigned 8-bit integer, or pandas raises
  \<^verbatim>\<open>TypeError\<close> (cannot safely cast).
\<close>

definition to_UInt8 :: "score_obj \<Rightarrow> error + 8 word option" where
  "to_UInt8 x =
     (case x of
        PdNA \<Rightarrow> Inr None
      | Float None \<Rightarrow> Inr None
      | Float (Some v) \<Rightarrow>
          (if of_int \<lfloor>v\<rfloor> = v \<and> 0 \<le> \<lfloor>v\<rfloor> \<and> \<lfloor>v\<rfloor> \<le> 255
           then Inr (Some (word_of_int \<lfloor>v\<rfloor>)) else Inl TypeError))"

fun astype_UInt8 :: "score_obj list \<Rightarrow> error + 8 word option list" where
  "astype_UInt8 [] = Inr []"
| "astype_UInt8 (x # xs) =
     (case to_UInt8 x of
        Inl e \<Rightarrow> Inl e
      | Inr v \<Rightarrow> (case astype_UInt8 xs of Inl e \<Rightarrow> Inl e | Inr vs \<Rightarrow> Inr (v # vs)))"

text \<open>
  The frame \<^verbatim>\<open>df1\<close> is the new object that \<^verbatim>\<open>replace\<close> returns; the method returns it with
  its added column, here the address of \<^verbatim>\<open>df1\<close> and the column \<^verbatim>\<open>score\<close>, row by row.
  With \<^verbatim>\<open>self.data = None\<close> the question columns do not exist (\<^verbatim>\<open>KeyError\<close>).
\<close>

definition score_subjects :: "int \<Rightarrow> state \<Rightarrow> (error + nat \<times> 8 word option list) \<times> state" where
  "score_subjects maximal_nans_per_sub s =
     (case data s of
        None \<Rightarrow> (Inl KeyError, s)
      | Some a \<Rightarrow>
          (let (df1, s) = alloc (replace_nan (frame_at s a)) s;
               score = map (\<lambda>r. nanmean (map (\<lambda>c. getq c r) questions)) (frame_at s df1);
               score = map np_floor score;
               score =
                 map (\<lambda>(r, sc).
                        if int (count_present r) < int (length questions) - maximal_nans_per_sub
                        then PdNA else Float sc)
                   (zip (frame_at s df1) score)
           in (case astype_UInt8 score of
                 Inl e \<Rightarrow> (Inl e, s)
               | Inr score \<Rightarrow> (Inr (df1, score), s))))"




subsection \<open>\<^verbatim>\<open>correlate_gender_age\<close>\<close>

text \<open>\<^verbatim>\<open>lambda x: False if x < 40 else True\<close>, on an age that is present.\<close>

definition over40 :: "numcell \<Rightarrow> bool" where
  "over40 x = (case x of Number a \<Rightarrow> (if a < 40 then False else True) | _ \<Rightarrow> True)"

text \<open>
  The key of a row under \<^verbatim>\<open>groupby(level=["gender", "age"])\<close>, the column \<^verbatim>\<open>age\<close> holding
  the flag by then. A row whose gender is missing has no key: \<^verbatim>\<open>groupby\<close> leaves it out
  of every group.
\<close>

definition group_key :: "row \<Rightarrow> (string \<times> bool) option" where
  "group_key r = (case gender r of None \<Rightarrow> None | Some g \<Rightarrow> Some (g, over40 (age r)))"

text \<open>
  \<^verbatim>\<open>groupby(...).mean()[questions]\<close>: one row per key that occurs, the keys in increasing
  order, and for each question the mean of the group's values that are present.
\<close>

definition groupby_mean :: "frame \<Rightarrow> ((string \<times> bool) \<times> numcell list) list" where
  "groupby_mean df =
     (let keys = sort (remdups (List.map_filter group_key df))
      in map (\<lambda>k. (k, map (\<lambda>c. series_mean (map (getq c) (filter (\<lambda>r. group_key r = Some k) df)))
                         questions))
           keys)"

text \<open>
  The frames this method builds and the one it writes (\<^verbatim>\<open>df1["age"] = ...\<close>, on the
  frame that \<^verbatim>\<open>dropna(...).reset_index(drop=True)\<close> has returned) are new objects that
  nothing else refers to; the grouped table is returned as a value. With
  \<^verbatim>\<open>self.data = None\<close>, \<^verbatim>\<open>dropna\<close> finds no column \<^verbatim>\<open>age\<close> (\<^verbatim>\<open>KeyError\<close>).
\<close>

definition correlate_gender_age ::
  "state \<Rightarrow> (error + ((string \<times> bool) \<times> numcell list) list) \<times> state" where
  "correlate_gender_age s =
     (case data s of
        None \<Rightarrow> (Inl KeyError, s)
      | Some a \<Rightarrow>
          (let df1 = replace_nan (frame_at s a);
               df1 = filter (\<lambda>r. \<not> isna (age r)) df1;
               df1 = map (\<lambda>(k, means). (k, map (round_cell 8) means)) (groupby_mean df1)
           in (Inr df1, s)))"



section \<open>Example data\<close>

definition example_row :: row where
  "example_row =
     \<lparr>age = Number 30, email = Some ''a.b@c.com'', first_name = Some ''Ada'',
      gender = Some ''Female'', ident = Number 0, last_name = Some ''Byron'',
      q1 = Number 1, q2 = Number 2, q3 = Number 3, q4 = Number 4, q5 = Number 5\<rparr>"

definition example_state :: "frame \<Rightarrow> state" where
  "example_state t = \<lparr>data_fname = ''data.json'', data = Some 0, frames = [t]\<rparr>"

text \<open>Rows with question fields missing: one, all five, and the first two.\<close>

definition gap_row :: row where
  "gap_row = example_row\<lparr>q1 := NanText, q2 := Number 2, q3 := Number 4, q4 := Number 6, q5 := Number 8\<rparr>"

definition empty_row :: row where
  "empty_row = example_row\<lparr>q1 := Null, q2 := NanText, q3 := Null, q4 := Null, q5 := NanText\<rparr>"

definition two_gap_row :: row where
  "two_gap_row = example_row\<lparr>q1 := Null, q2 := Null, q3 := Number 3, q4 := Number 6, q5 := Number 9\<rparr>"

text \<open>A row whose email starts with the at sign.\<close>

definition at_row :: row where
  "at_row = example_row\<lparr>email := Some ''@x.y''\<rparr>"

text \<open>A row with the age 100.\<close>

definition old_row :: row where
  "old_row = example_row\<lparr>age := Number 100\<rparr>"





definition example_fs :: filesystem where
  "example_fs =
     (\<lambda>p. if p = ''data.json'' then Some (RegularFile (Some [example_row]))
          else if p = ''folder'' then Some Directory else None)"

text \<open>A row whose email starts with a dot.\<close>

definition dot_row :: row where
  "dot_row = example_row\<lparr>email := Some ''.a@b.c''\<rparr>"

section \<open>Proofs\<close>

lemma loaded_example_state: "loaded (example_state t) t"
  by (simp add: loaded_def example_state_def frame_at_def)

text \<open>After \<^verbatim>\<open>read_data\<close> on a file that holds a table, the object holds that table.\<close>

lemma read_data_loaded:
  "fs (data_fname s) = Some (RegularFile (Some t)) \<Longrightarrow>
   fst (read_data fs s) = Inr () \<and> loaded (snd (read_data fs s)) t"
  by (simp add: read_data_def alloc_def loaded_def frame_at_def)

subsection \<open>The constructor\<close>

text \<open>
  C7. Constructing the object with a path that is not an existing regular file raises the
  constructor's error (\<^verbatim>\<open>ValueError\<close> in the program), and nothing is built. With a
  path to a regular file the construction succeeds, and the object holds the path and no
  data: \<^verbatim>\<open>self.data\<close> is \<^verbatim>\<open>None\<close> and the store is as it was.
\<close>

theorem init_checks_path:
  "(is_file fs p \<longrightarrow> init fs st p = Inr \<lparr>data_fname = p, data = None, frames = st\<rparr>) \<and>
   (\<not> is_file fs p \<longrightarrow> init fs st p = Inl ValueError)"
  by (simp add: init_def)

theorem init_checks_path_witness:
  "is_file example_fs ''data.json'' \<and>
   init example_fs [] ''data.json'' =
     Inr \<lparr>data_fname = ''data.json'', data = None, frames = []\<rparr> \<and>
   \<not> is_file example_fs ''folder'' \<and> init example_fs [] ''folder'' = Inl ValueError \<and>
   \<not> is_file example_fs ''missing'' \<and> init example_fs [] ''missing'' = Inl ValueError"
  using init_checks_path [of example_fs "''data.json''" "[]"]
    init_checks_path [of example_fs "''folder''" "[]"]
    init_checks_path [of example_fs "''missing''" "[]"]
  by (simp add: is_file_def example_fs_def)

subsection \<open>The email filter\<close>

lemma remove_rows_loaded:
  "loaded s t \<Longrightarrow>
   remove_rows_without_mail s =
     (Inr (length (frames s)),
      s\<lparr>frames := frames s @ [filter (\<lambda>r. all_filters (email r)) t]\<rparr>)"
  by (auto simp: loaded_def remove_rows_without_mail_def alloc_def all_filters_def Let_def
           split: option.splits intro!: filter_cong)

text \<open>
  C1. The claim says that no row of the result has an email that starts with a dot. The
  method tests \<^verbatim>\<open>startswith('\.')\<close>, a backslash followed by a dot, so the row with
  the email \<^verbatim>\<open>.a@b.c\<close> passes all six tests and is returned.
\<close>

theorem dot_row_kept:
  "remove_rows_without_mail (example_state [dot_row]) =
     (Inr 1, \<lparr>data_fname = ''data.json'', data = Some 0, frames = [[dot_row], [dot_row]]\<rparr>) \<and>
   str_startswith ''.'' False (email dot_row)"
  by (simp add: remove_rows_without_mail_def example_state_def frame_at_def alloc_def
        dot_row_def example_row_def str_contains_def str_startswith_def str_count_def)

subsection \<open>The store\<close>

lemma frame_at_store_frame:
  "frame_at (store_frame a f s) b = (if a = b \<and> a < length (frames s) then f else frame_at s b)"
proof (cases "a < length (frames s)")
  case True
  then show ?thesis by (simp add: frame_at_def store_frame_def nth_list_update)
next
  case False
  then have "(frames s)[a := f] = frames s" by (simp add: list_update_beyond)
  with False show ?thesis by (simp add: frame_at_def store_frame_def)
qed

lemma store_frame_fields [simp]:
  "data (store_frame a f s) = data s"
  "data_fname (store_frame a f s) = data_fname s"
  "length (frames (store_frame a f s)) = length (frames s)"
  by (simp_all add: store_frame_def)

lemma set_item_fields [simp]:
  "data (set_item d q i v s) = data s"
  "data_fname (set_item d q i v s) = data_fname s"
  "length (frames (set_item d q i v s)) = length (frames s)"
  by (simp_all add: set_item_def)

lemma frame_at_set_item_other: "a \<noteq> d \<Longrightarrow> frame_at (set_item d q i v s) a = frame_at s a"
  by (simp add: set_item_def frame_at_store_frame)

lemma frame_at_set_item_same:
  "d < length (frames s) \<Longrightarrow>
   frame_at (set_item d q i v s) d = (frame_at s d)[i := setq q v (frame_at s d ! i)]"
  by (simp add: set_item_def frame_at_store_frame)

lemma fill_column_fields [simp]:
  "data (fill_column d q idx s) = data s"
  "data_fname (fill_column d q idx s) = data_fname s"
  "length (frames (fill_column d q idx s)) = length (frames s)"
  by (induction idx arbitrary: s; simp add: Let_def)+

lemma fill_column_other: "a \<noteq> d \<Longrightarrow> frame_at (fill_column d q idx s) a = frame_at s a"
  by (induction idx arbitrary: s) (simp_all add: Let_def frame_at_set_item_other)

lemma fill_column_length:
  "d < length (frames s) \<Longrightarrow> length (frame_at (fill_column d q idx s) d) = length (frame_at s d)"
  by (induction idx arbitrary: s) (simp_all add: Let_def frame_at_set_item_same)

lemma fill_column_nth:
  "d < length (frames s) \<Longrightarrow> distinct idx \<Longrightarrow> j < length (frame_at s d) \<Longrightarrow>
   frame_at (fill_column d q idx s) d ! j =
     (if j \<in> set idx then setq q (other_mean q (frame_at s d ! j)) (frame_at s d ! j)
      else frame_at s d ! j)"
proof (induction idx arbitrary: s)
  case Nil
  then show ?case by simp
next
  case (Cons i idx)
  let ?v = "series_mean (map (\<lambda>c. getq c (frame_at s d ! i)) (remove1 q questions))"
  let ?s = "set_item d q i ?v s"
  have len: "d < length (frames ?s)" using Cons.prems by simp
  have fr: "frame_at ?s d = (frame_at s d)[i := setq q ?v (frame_at s d ! i)]"
    using Cons.prems by (simp add: frame_at_set_item_same)
  have j: "j < length (frame_at ?s d)" using Cons.prems fr by simp
  have d: "distinct idx" "i \<notin> set idx" using Cons.prems by simp_all
  have "frame_at (fill_column d q (i # idx) s) d ! j = frame_at (fill_column d q idx ?s) d ! j"
    by (simp add: Let_def)
  also have "\<dots> = (if j \<in> set idx then setq q (other_mean q (frame_at ?s d ! j)) (frame_at ?s d ! j)
      else frame_at ?s d ! j)"
    using Cons.IH [OF len d(1) j] .
  also have "\<dots> = (if j \<in> set (i # idx) then setq q (other_mean q (frame_at s d ! j)) (frame_at s d ! j)
      else frame_at s d ! j)"
  proof (cases "j = i")
    case True
    then show ?thesis using d Cons.prems(3) by (simp add: fr other_mean_def)
  next
    case False
    then show ?thesis by (simp add: fr)
  qed
  finally show ?case .
qed

lemma fill_column_masked:
  assumes "d < length (frames s)"
  shows "frame_at (fill_column d q
            (filter (\<lambda>i. isna (getq q (frame_at s d ! i))) [0..<length (frame_at s d)]) s) d =
         map (spec_impute_field q) (frame_at s d)"
proof (rule nth_equalityI)
  show "length (frame_at (fill_column d q
            (filter (\<lambda>i. isna (getq q (frame_at s d ! i))) [0..<length (frame_at s d)]) s) d) =
        length (map (spec_impute_field q) (frame_at s d))"
    using assms by (simp add: fill_column_length)
next
  fix j
  assume "j < length (frame_at (fill_column d q
            (filter (\<lambda>i. isna (getq q (frame_at s d ! i))) [0..<length (frame_at s d)]) s) d)"
  then have j: "j < length (frame_at s d)" using assms by (simp add: fill_column_length)
  show "frame_at (fill_column d q
            (filter (\<lambda>i. isna (getq q (frame_at s d ! i))) [0..<length (frame_at s d)]) s) d ! j =
        map (spec_impute_field q) (frame_at s d) ! j"
    using assms j by (simp add: fill_column_nth spec_impute_field_def)
qed

lemma store_frame_twice: "store_frame d f (store_frame d g s) = store_frame d f s"
  by (simp add: store_frame_def)

lemma fill_column_store:
  "fill_column d q idx s = store_frame d (frame_at (fill_column d q idx s) d) s"
proof (induction idx arbitrary: s)
  case Nil
  show ?case by (simp add: store_frame_def frame_at_def)
next
  case (Cons i idx)
  let ?s = "set_item d q i (series_mean (map (\<lambda>c. getq c (frame_at s d ! i)) (remove1 q questions))) s"
  have "fill_column d q (i # idx) s = fill_column d q idx ?s" by (simp add: Let_def)
  also have "\<dots> = store_frame d (frame_at (fill_column d q idx ?s) d) ?s" by (rule Cons.IH)
  also have "\<dots> = store_frame d (frame_at (fill_column d q idx ?s) d) s"
    by (simp add: set_item_def store_frame_twice)
  finally show ?case by (simp add: Let_def)
qed

lemma masked_eq:
  "filter (\<lambda>i. map (\<lambda>r. isna (getq q r)) t ! i) [0..<length t] =
   filter (\<lambda>i. isna (getq q (t ! i))) [0..<length t]"
  by (rule filter_cong) simp_all

lemma fill_questions_fst:
  "d < length (frames s) \<Longrightarrow>
   fst (fill_questions d qs (arr, s)) = arr @ pass_indices qs (frame_at s d)"
proof (induction qs arbitrary: arr s)
  case Nil
  show ?case by simp
next
  case (Cons q qs)
  let ?m = "filter (\<lambda>i. isna (getq q (frame_at s d ! i))) [0..<length (frame_at s d)]"
  let ?s = "fill_column d q ?m s"
  have len: "d < length (frames ?s)" using Cons.prems by simp
  have fr: "frame_at ?s d = map (spec_impute_field q) (frame_at s d)"
    using fill_column_masked [OF Cons.prems, of q] by simp
  have "fst (fill_questions d (q # qs) (arr, s)) = fst (fill_questions d qs (arr @ ?m, ?s))"
    by (simp add: Let_def masked_eq)
  also have "\<dots> = (arr @ ?m) @ pass_indices qs (frame_at ?s d)"
    by (rule Cons.IH [OF len])
  finally show ?case by (simp add: fr masked_eq)
qed

lemma fill_questions_frame:
  "d < length (frames s) \<Longrightarrow>
   frame_at (snd (fill_questions d qs (arr, s))) d = map (fold spec_impute_field qs) (frame_at s d)"
proof (induction qs arbitrary: arr s)
  case Nil
  show ?case by simp
next
  case (Cons q qs)
  let ?m = "filter (\<lambda>i. isna (getq q (frame_at s d ! i))) [0..<length (frame_at s d)]"
  let ?s = "fill_column d q ?m s"
  have len: "d < length (frames ?s)" using Cons.prems by simp
  have fr: "frame_at ?s d = map (spec_impute_field q) (frame_at s d)"
    using fill_column_masked [OF Cons.prems, of q] by simp
  have "frame_at (snd (fill_questions d (q # qs) (arr, s))) d =
        frame_at (snd (fill_questions d qs (arr @ ?m, ?s))) d"
    by (simp add: Let_def masked_eq)
  also have "\<dots> = map (fold spec_impute_field qs) (frame_at ?s d)"
    by (rule Cons.IH [OF len])
  finally show ?case by (simp add: fr)
qed

lemma fill_questions_store:
  "snd (fill_questions d qs (arr, s)) =
   store_frame d (frame_at (snd (fill_questions d qs (arr, s))) d) s"
proof (induction qs arbitrary: arr s)
  case Nil
  show ?case by (simp add: store_frame_def frame_at_def)
next
  case (Cons q qs)
  let ?m = "filter (\<lambda>i. isna (getq q (frame_at s d ! i))) [0..<length (frame_at s d)]"
  let ?s = "fill_column d q ?m s"
  let ?r = "fill_questions d qs (arr @ ?m, ?s)"
  have step: "fill_questions d (q # qs) (arr, s) = ?r" by (simp add: Let_def masked_eq)
  have "snd ?r = store_frame d (frame_at (snd ?r) d) ?s" by (rule Cons.IH)
  also have "\<dots> = store_frame d (frame_at (snd ?r) d) (store_frame d (frame_at ?s d) s)"
    using fill_column_store [of d q ?m s] by simp
  also have "\<dots> = store_frame d (frame_at (snd ?r) d) s" by (rule store_frame_twice)
  finally show ?case unfolding step .
qed

lemma fill_na_loaded:
  assumes "loaded s t"
  shows "fill_na_with_mean s =
     (Inr (Suc (length (frames s)), np_unique (sort (pass_indices questions (replace_nan t)))),
      s\<lparr>frames := frames s @
          [map (\<lambda>r. round_questions 2 (spec_impute_row (replace_row r))) t,
           map (\<lambda>r. round_questions 2 (spec_impute_row (replace_row r))) t]\<rparr>)"
proof -
  obtain a where a: "data s = Some a" "a < length (frames s)" "frame_at s a = t"
    using assms by (auto simp: loaded_def split: option.splits)
  define d where "d = length (frames s)"
  define s1 where "s1 = s\<lparr>frames := frames s @ [replace_nan t]\<rparr>"
  define res where "res = fill_questions d questions ([], s1)"
  have d: "d < length (frames s1)" and fd: "frame_at s1 d = replace_nan t"
    by (simp_all add: d_def s1_def frame_at_def)
  have arr: "fst res = pass_indices questions (replace_nan t)"
    using fill_questions_fst [OF d, of questions "[]"] by (simp add: res_def fd)
  define f where "f = map (fold spec_impute_field questions) (replace_nan t)"
  have fr: "frame_at (snd res) d = f"
    using fill_questions_frame [OF d, of questions "[]"] by (simp add: res_def fd f_def)
  have st: "snd res = store_frame d f s1"
    using fill_questions_store [of d questions "[]" s1] by (simp add: res_def [symmetric] fr)
  have "fill_na_with_mean s =
     (let (arr, s2) = res;
          s3 = store_frame d (map (round_questions 2) (frame_at s2 d)) s2;
          (r, s4) = alloc (frame_at s3 d) s3
      in (Inr (r, np_unique (sort arr)), s4))"
    by (simp add: fill_na_with_mean_def a alloc_def d_def s1_def res_def)
  also have "\<dots> =
     (let s3 = store_frame d (map (round_questions 2) f) s1;
          (r, s4) = alloc (frame_at s3 d) s3
      in (Inr (r, np_unique (sort (fst res))), s4))"
    using st fr by (simp add: split_beta Let_def store_frame_twice)
  finally show ?thesis
    by (simp add: arr alloc_def Let_def store_frame_def frame_at_def s1_def d_def f_def
          replace_nan_def spec_impute_row_def comp_def)
qed


subsection \<open>Imputation\<close>

lemma getq_setq: "getq q' (setq q v r) = (if q' = q then v else getq q' r)"
  by (cases q; cases q'; simp)

lemma impute_present: "\<not> isna (getq q r) \<Longrightarrow> spec_impute_field q r = r"
  by (simp add: spec_impute_field_def)

lemma isna_after_impute: "isna (getq q' (spec_impute_field q r)) \<Longrightarrow> isna (getq q' r)"
  by (auto simp: spec_impute_field_def getq_setq split: if_splits)

lemma set_pass_indices:
  "set (pass_indices qs t) = {i. i < length t \<and> (\<exists>q\<in>set qs. isna (getq q (t ! i)))}"
proof (induction qs arbitrary: t)
  case Nil
  show ?case by simp
next
  case (Cons q qs)
  have key: "(isna (getq q r) \<or> (\<exists>q'\<in>set qs. isna (getq q' (spec_impute_field q r)))) =
             (isna (getq q r) \<or> (\<exists>q'\<in>set qs. isna (getq q' r)))" for r
  proof (cases "isna (getq q r)")
    case True
    then show ?thesis by simp
  next
    case False
    then show ?thesis by (simp add: impute_present)
  qed
  show ?case
  proof (rule set_eqI)
    fix i
    show "i \<in> set (pass_indices (q # qs) t) \<longleftrightarrow>
          i \<in> {i. i < length t \<and> (\<exists>q\<in>set (q # qs). isna (getq q (t ! i)))}"
      using key [of "t ! i"] by (auto simp: Cons.IH)
  qed
qed

lemma strict_sorted_remdups_adj:
  "sorted xs \<Longrightarrow> sorted_wrt (<) (remdups_adj xs)" for xs :: "nat list"
  by (induction xs rule: remdups_adj.induct) (auto simp: less_le)

lemma np_unique_sorted: "sorted_wrt (<) (np_unique xs)"
  by (simp add: np_unique_def strict_sorted_remdups_adj)

lemma set_np_unique: "set (np_unique xs) = set xs"
  by (simp add: np_unique_def)

lemma getq_replace_row: "getq q (replace_row r) = replace_num (getq q r)"
  by (cases q) (simp_all add: replace_row_def)

lemma getq_round_questions: "getq q (round_questions n r) = round_cell n (getq q r)"
  by (cases q) (simp_all add: round_questions_def)

lemma isna_round_cell: "isna (round_cell n c) = isna c"
  by (cases c) (simp_all add: round_cell_def isna_def)

lemma other_mean_all_missing: "\<forall>c. getq c r = Null \<Longrightarrow> other_mean q r = Null"
  by (simp add: other_mean_def series_mean_def present_def List.map_filter_def)

lemma all_missing_impute_field:
  "\<forall>c. getq c r = Null \<Longrightarrow> getq c' (spec_impute_field q r) = Null"
  by (simp add: spec_impute_field_def getq_setq other_mean_all_missing)

lemma all_missing_fold:
  "\<forall>c. getq c r = Null \<Longrightarrow> \<forall>c. getq c (fold spec_impute_field qs r) = Null"
  by (induction qs arbitrary: r) (simp_all add: all_missing_impute_field)

lemma all_missing_stay:
  assumes "\<forall>q\<in>set questions. isna (getq q r)"
  shows "isna (getq c (round_questions n (spec_impute_row r)))"
proof -
  have "\<forall>c. getq c r = Null"
  proof
    fix c show "getq c r = Null" using assms by (cases c) (simp_all add: questions_def isna_def)
  qed
  then have "getq c (spec_impute_row r) = Null"
    unfolding spec_impute_row_def using all_missing_fold by blast
  then show ?thesis by (simp add: getq_round_questions isna_round_cell isna_def round_cell_def)
qed

text \<open>
  C10. For a loaded table, the index array that \<^verbatim>\<open>fill_na_with_mean\<close> returns holds the
  index of a row if and only if at least one of the row's five question fields is missing
  once the text \<^verbatim>\<open>"nan"\<close> has been normalised to missing. A row whose five question fields
  are all missing is in the array, and its five fields are still missing in the table that
  is returned.
\<close>

theorem fill_na_indices_iff:
  assumes "loaded s t"
  shows "\<exists>res arr s'. fill_na_with_mean s = (Inr (res, arr), s') \<and>
     set arr = {i. i < length t \<and> (\<exists>q\<in>set questions. isna (getq q (replace_row (t ! i))))} \<and>
     (\<forall>i<length t. (\<forall>q\<in>set questions. isna (getq q (replace_row (t ! i)))) \<longrightarrow>
        i \<in> set arr \<and> (\<forall>q\<in>set questions. isna (getq q (frame_at s' res ! i))))"
proof -
  let ?arr = "np_unique (sort (pass_indices questions (replace_nan t)))"
  let ?f = "map (\<lambda>r. round_questions 2 (spec_impute_row (replace_row r))) t"
  let ?s = "s\<lparr>frames := frames s @ [?f, ?f]\<rparr>"
  have run: "fill_na_with_mean s = (Inr (Suc (length (frames s)), ?arr), ?s)"
    by (rule fill_na_loaded [OF assms])
  have fr: "frame_at ?s (Suc (length (frames s))) = ?f"
    by (simp add: frame_at_def nth_append)
  have arr: "set ?arr = {i. i < length t \<and> (\<exists>q\<in>set questions. isna (getq q (replace_row (t ! i))))}"
    by (auto simp: set_np_unique set_pass_indices replace_nan_def)
  have stay: "\<forall>i<length t. (\<forall>q\<in>set questions. isna (getq q (replace_row (t ! i)))) \<longrightarrow>
        i \<in> set ?arr \<and> (\<forall>q\<in>set questions. isna (getq q (?f ! i)))"
  proof (intro allI impI)
    fix i
    assume i: "i < length t" and m: "\<forall>q\<in>set questions. isna (getq q (replace_row (t ! i)))"
    have "i \<in> set ?arr" unfolding arr using i m by (auto simp: questions_def)
    moreover have "\<forall>q\<in>set questions. isna (getq q (?f ! i))"
      using i all_missing_stay [OF m] by simp
    ultimately show "i \<in> set ?arr \<and> (\<forall>q\<in>set questions. isna (getq q (?f ! i)))" ..
  qed
  show ?thesis
    apply (rule exI [of _ "Suc (length (frames s))"])
    apply (rule exI [of _ ?arr])
    apply (rule exI [of _ ?s])
    unfolding fr using run arr stay by blast
qed

theorem fill_na_indices_iff_witness:
  "loaded (example_state [example_row, empty_row, gap_row]) [example_row, empty_row, gap_row] \<and>
   (\<exists>res arr s'. fill_na_with_mean (example_state [example_row, empty_row, gap_row]) = (Inr (res, arr), s') \<and>
      0 \<notin> set arr \<and> 1 \<in> set arr \<and> 2 \<in> set arr \<and>
      q1 (frame_at s' res ! 1) = Null \<and> q5 (frame_at s' res ! 1) = Null)"
proof -
  let ?t = "[example_row, empty_row, gap_row]"
  have l: "loaded (example_state ?t) ?t" by (rule loaded_example_state)
  obtain res arr s' where r: "fill_na_with_mean (example_state ?t) = (Inr (res, arr), s')"
     and a: "set arr = {i. i < length ?t \<and> (\<exists>q\<in>set questions. isna (getq q (replace_row (?t ! i))))}"
     and m: "\<forall>i<length ?t. (\<forall>q\<in>set questions. isna (getq q (replace_row (?t ! i)))) \<longrightarrow>
        i \<in> set arr \<and> (\<forall>q\<in>set questions. isna (getq q (frame_at s' res ! i)))"
    using fill_na_indices_iff [OF l] by blast
  have a0: "0 \<notin> set arr"
    unfolding a by (simp add: questions_def getq_replace_row replace_num_def isna_def example_row_def)
  have a1: "1 \<in> set arr"
    unfolding a by (simp add: questions_def getq_replace_row replace_num_def isna_def empty_row_def)
  have a2: "2 \<in> set arr"
    unfolding a by (simp add: questions_def getq_replace_row replace_num_def isna_def gap_row_def)
  have "(\<forall>q\<in>set questions. isna (getq q (replace_row (?t ! 1)))) \<longrightarrow>
        (\<forall>q\<in>set questions. isna (getq q (frame_at s' res ! 1)))"
    using m by simp
  then have n: "q1 (frame_at s' res ! 1) = Null \<and> q5 (frame_at s' res ! 1) = Null"
    by (simp add: questions_def getq_replace_row replace_num_def isna_def empty_row_def)
  from r a0 a1 a2 n have "\<exists>res arr s'. fill_na_with_mean (example_state ?t) = (Inr (res, arr), s') \<and>
      0 \<notin> set arr \<and> 1 \<in> set arr \<and> 2 \<in> set arr \<and>
      q1 (frame_at s' res ! 1) = Null \<and> q5 (frame_at s' res ! 1) = Null"
    by (intro exI conjI) (assumption | simp)+
  with l show ?thesis ..
qed


lemma distinct_count_list: "distinct xs \<Longrightarrow> x \<in> set xs \<Longrightarrow> count_list xs x = 1"
  by (induction xs) auto


lemma row_two_gap:
  "round_questions 2 (spec_impute_row (replace_row two_gap_row)) =
   two_gap_row\<lparr>q1 := Number 6, q2 := Number 6\<rparr>"
  by (simp add: round_questions_def spec_impute_row_def spec_impute_field_def other_mean_def
      replace_row_def questions_def isna_def series_mean_def present_def List.map_filter_def
      round_cell_def np_round_def rint_def two_gap_row_def example_row_def
      replace_num_def replace_str_def)

lemma fill_na_frame:
  assumes "loaded s t" and "fill_na_with_mean s = (Inr (res, arr), s')"
  shows "frame_at s' res = map (\<lambda>r. round_questions 2 (spec_impute_row (replace_row r))) t"
proof -
  let ?f = "map (\<lambda>r. round_questions 2 (spec_impute_row (replace_row r))) t"
  have "res = Suc (length (frames s))" and "s' = s\<lparr>frames := frames s @ [?f, ?f]\<rparr>"
    using assms(2) fill_na_loaded [OF assms(1)] by simp_all
  then show ?thesis by (simp add: frame_at_def nth_append)
qed

text \<open>
  C6. The index array that \<^verbatim>\<open>fill_na_with_mean\<close> returns is strictly increasing, so it is
  sorted and without duplicates; each of its entries is a row index of the table and occurs
  exactly once; and every row that received an imputed value (a question field that was
  missing after normalisation and holds a number in the result) has its index in the array.
\<close>

theorem fill_na_indices_sorted:
  assumes "loaded s t"
  shows "\<exists>res arr s'. fill_na_with_mean s = (Inr (res, arr), s') \<and>
     sorted_wrt (<) arr \<and> distinct arr \<and>
     (\<forall>i\<in>set arr. i < length t \<and> count_list arr i = 1) \<and>
     (\<forall>i<length t.
        (\<exists>q\<in>set questions. isna (getq q (replace_row (t ! i))) \<and>
                              \<not> isna (getq q (frame_at s' res ! i))) \<longrightarrow> i \<in> set arr)"
proof -
  let ?arr = "np_unique (sort (pass_indices questions (replace_nan t)))"
  let ?f = "map (\<lambda>r. round_questions 2 (spec_impute_row (replace_row r))) t"
  let ?s = "s\<lparr>frames := frames s @ [?f, ?f]\<rparr>"
  have run: "fill_na_with_mean s = (Inr (Suc (length (frames s)), ?arr), ?s)"
    by (rule fill_na_loaded [OF assms])
  have arr: "set ?arr = {i. i < length t \<and> (\<exists>q\<in>set questions. isna (getq q (replace_row (t ! i))))}"
    by (auto simp: set_np_unique set_pass_indices replace_nan_def)
  have srt: "sorted_wrt (<) ?arr" by (rule np_unique_sorted)
  then have dist: "distinct ?arr" by (simp add: strict_sorted_iff)
  have once: "\<forall>i\<in>set ?arr. i < length t \<and> count_list ?arr i = 1"
  proof
    fix i assume i: "i \<in> set ?arr"
    then have "i < length t" unfolding arr by simp
    moreover have "count_list ?arr i = 1" using dist i by (rule distinct_count_list)
    ultimately show "i < length t \<and> count_list ?arr i = 1" ..
  qed
  have got: "\<forall>i<length t.
        (\<exists>q\<in>set questions. isna (getq q (replace_row (t ! i))) \<and>
           \<not> isna (getq q (frame_at ?s (Suc (length (frames s))) ! i))) \<longrightarrow> i \<in> set ?arr"
    unfolding arr by blast
  show ?thesis
    apply (rule exI [of _ "Suc (length (frames s))"])
    apply (rule exI [of _ ?arr])
    apply (rule exI [of _ ?s])
    using run srt dist once got by blast
qed

theorem fill_na_indices_sorted_witness:
  "loaded (example_state [two_gap_row, example_row]) [two_gap_row, example_row] \<and>
   (\<exists>res arr s'.
      fill_na_with_mean (example_state [two_gap_row, example_row]) = (Inr (res, arr), s') \<and>
      sorted_wrt (<) arr \<and> distinct arr \<and> 0 \<in> set arr \<and> count_list arr 0 = 1)"
proof -
  let ?t = "[two_gap_row, example_row]"
  have l: "loaded (example_state ?t) ?t" by (rule loaded_example_state)
  obtain res arr s' where r: "fill_na_with_mean (example_state ?t) = (Inr (res, arr), s')"
     and s: "sorted_wrt (<) arr" and d: "distinct arr"
     and c: "\<forall>i\<in>set arr. i < length ?t \<and> count_list arr i = 1"
     and g: "\<forall>i<length ?t.
        (\<exists>q\<in>set questions. isna (getq q (replace_row (?t ! i))) \<and>
                              \<not> isna (getq q (frame_at s' res ! i))) \<longrightarrow> i \<in> set arr"
    using fill_na_indices_sorted [OF l] by blast
  have "frame_at s' res ! 0 = round_questions 2 (spec_impute_row (replace_row two_gap_row))"
    using fill_na_frame [OF l r] by simp
  then have f: "frame_at s' res ! 0 = two_gap_row\<lparr>q1 := Number 6, q2 := Number 6\<rparr>"
    by (simp only: row_two_gap)
  have "isna (getq Q1 (replace_row (?t ! 0))) \<and> \<not> isna (getq Q1 (frame_at s' res ! 0))"
    by (simp add: f getq_replace_row replace_num_def isna_def two_gap_row_def)
  then have "\<exists>q\<in>set questions. isna (getq q (replace_row (?t ! 0))) \<and>
                              \<not> isna (getq q (frame_at s' res ! 0))"
    by (auto simp: questions_def)
  with g have a0: "0 \<in> set arr" by simp
  with c have c0: "count_list arr 0 = 1" by blast
  from r s d a0 c0 have "\<exists>res arr s'.
      fill_na_with_mean (example_state ?t) = (Inr (res, arr), s') \<and>
      sorted_wrt (<) arr \<and> distinct arr \<and> 0 \<in> set arr \<and> count_list arr 0 = 1"
    by blast
  with l show ?thesis ..
qed




subsection \<open>The stored table is left alone\<close>

lemma keeps_refl: "keeps s s"
  by (simp add: keeps_def)

lemma keeps_loaded: "keeps s s' \<Longrightarrow> loaded s t \<Longrightarrow> loaded s' t"
proof -
  assume k: "keeps s s'" and l: "loaded s t"
  obtain a where a: "data s = Some a" "a < length (frames s)" "frames s ! a = t"
    using l by (auto simp: loaded_def frame_at_def split: option.splits)
  have "length (take (length (frames s)) (frames s')) = length (frames s)"
    using k by (simp add: keeps_def)
  then have len: "length (frames s) \<le> length (frames s')" by simp
  have "frames s' ! a = take (length (frames s)) (frames s') ! a"
    using a(2) by simp
  also have "\<dots> = t" using k a(3) by (simp add: keeps_def)
  finally show "loaded s' t"
    using k a len by (simp add: loaded_def frame_at_def keeps_def)
qed

lemma keeps_append: "keeps s (s\<lparr>frames := frames s @ fs\<rparr>)"
  by (simp add: keeps_def)

lemma keeps_show_age_distrib: "keeps s (snd (show_age_distrib s))"
  by (cases "data s") (simp_all add: show_age_distrib_def keeps_refl case_prod_beta Let_def del: age_loop.simps)

lemma keeps_correlate_gender_age: "keeps s (snd (correlate_gender_age s))"
  by (simp add: correlate_gender_age_def keeps_refl split: option.splits)

lemma keeps_score_subjects: "keeps s (snd (score_subjects m s))"
  by (simp add: score_subjects_def alloc_def keeps_refl keeps_append Let_def
           split: option.splits sum.splits)

lemma keeps_remove_rows: "loaded s t \<Longrightarrow> keeps s (snd (remove_rows_without_mail s))"
  by (simp add: remove_rows_loaded keeps_append)

lemma keeps_fill_na: "loaded s t \<Longrightarrow> keeps s (snd (fill_na_with_mean s))"
  by (simp add: fill_na_loaded keeps_append)

text \<open>
  C8. No query changes the loaded table. After \<^verbatim>\<open>show_age_distrib\<close>,
  \<^verbatim>\<open>remove_rows_without_mail\<close>, \<^verbatim>\<open>fill_na_with_mean\<close>, \<^verbatim>\<open>score_subjects\<close> or
  \<^verbatim>\<open>correlate_gender_age\<close>, whether the call returns or raises, \<^verbatim>\<open>self.data\<close> is the same
  address, every frame the store held is as it was, and so the object still holds the same
  table, row for row. The frames that the methods return are new objects: their addresses
  lie beyond the store the call started from.
\<close>

theorem queries_keep_data:
  assumes "loaded s t"
  shows "keeps s (snd (show_age_distrib s)) \<and> loaded (snd (show_age_distrib s)) t \<and>
         keeps s (snd (remove_rows_without_mail s)) \<and> loaded (snd (remove_rows_without_mail s)) t \<and>
         keeps s (snd (fill_na_with_mean s)) \<and> loaded (snd (fill_na_with_mean s)) t \<and>
         keeps s (snd (score_subjects m s)) \<and> loaded (snd (score_subjects m s)) t \<and>
         keeps s (snd (correlate_gender_age s)) \<and> loaded (snd (correlate_gender_age s)) t \<and>
         (\<exists>res. fst (remove_rows_without_mail s) = Inr res \<and> length (frames s) \<le> res) \<and>
         (\<exists>res arr. fst (fill_na_with_mean s) = Inr (res, arr) \<and> length (frames s) \<le> res) \<and>
         (\<forall>res score. fst (score_subjects m s) = Inr (res, score) \<longrightarrow> length (frames s) \<le> res)"
proof -
  note k1 = keeps_show_age_distrib [of s]
  note k2 = keeps_remove_rows [OF assms]
  note k3 = keeps_fill_na [OF assms]
  note k4 = keeps_score_subjects [of s m]
  note k5 = keeps_correlate_gender_age [of s]
  note l1 = keeps_loaded [OF k1 assms]
  note l2 = keeps_loaded [OF k2 assms]
  note l3 = keeps_loaded [OF k3 assms]
  note l4 = keeps_loaded [OF k4 assms]
  note l5 = keeps_loaded [OF k5 assms]
  have f2: "\<exists>res. fst (remove_rows_without_mail s) = Inr res \<and> length (frames s) \<le> res"
    by (simp add: remove_rows_loaded [OF assms])
  have f3: "\<exists>res arr. fst (fill_na_with_mean s) = Inr (res, arr) \<and> length (frames s) \<le> res"
    by (simp add: fill_na_loaded [OF assms])
  have f4: "\<forall>res score. fst (score_subjects m s) = Inr (res, score) \<longrightarrow> length (frames s) \<le> res"
    by (auto simp: score_subjects_def alloc_def Let_def split: option.splits sum.splits)
  show ?thesis by (intro conjI k1 k2 k3 k4 k5 l1 l2 l3 l4 l5 f2 f3 f4)
qed

theorem queries_keep_data_witness:
  "loaded (example_state [example_row]) [example_row] \<and>
   loaded (snd (show_age_distrib (example_state [example_row]))) [example_row] \<and>
   loaded (snd (remove_rows_without_mail (example_state [example_row]))) [example_row] \<and>
   loaded (snd (fill_na_with_mean (example_state [example_row]))) [example_row] \<and>
   loaded (snd (score_subjects 1 (example_state [example_row]))) [example_row] \<and>
   loaded (snd (correlate_gender_age (example_state [example_row]))) [example_row]"
  using queries_keep_data [OF loaded_example_state, of "[example_row]" 1]
    loaded_example_state [of "[example_row]"]
  by (simp only:)

subsection \<open>Filtering twice\<close>

text \<open>
  C9. \<^verbatim>\<open>remove_rows_without_mail\<close> is idempotent: called on an object that holds the table
  the first call returned, it returns that table again, because every row of it passes the
  six tests of the method.
\<close>

theorem filter_twice:
  assumes "loaded s t"
  shows "\<exists>r s1 r2 s2.
     remove_rows_without_mail s = (Inr r, s1) \<and>
     remove_rows_without_mail (s1\<lparr>data := Some r\<rparr>) = (Inr r2, s2) \<and>
     frame_at s2 r2 = frame_at s1 r \<and>
     list_all (\<lambda>x. all_filters (email x)) (frame_at s1 r)"
proof -
  let ?f = "filter (\<lambda>r. all_filters (email r)) t"
  let ?r = "length (frames s)"
  let ?s1 = "s\<lparr>frames := frames s @ [?f]\<rparr>"
  let ?s2 = "?s1\<lparr>data := Some ?r\<rparr>"
  have one: "remove_rows_without_mail s = (Inr ?r, ?s1)"
    by (rule remove_rows_loaded [OF assms])
  have l2: "loaded ?s2 ?f" by (simp add: loaded_def frame_at_def)
  have two: "remove_rows_without_mail ?s2 =
      (Inr (length (frames ?s2)),
       ?s2\<lparr>frames := frames ?s2 @ [filter (\<lambda>r. all_filters (email r)) ?f]\<rparr>)"
    by (rule remove_rows_loaded [OF l2])
  have same: "filter (\<lambda>r. all_filters (email r)) ?f = ?f" by simp
  have fr: "frame_at (?s2\<lparr>frames := frames ?s2 @ [?f]\<rparr>) (length (frames ?s2)) = frame_at ?s1 ?r"
    by (simp add: frame_at_def nth_append)
  have la: "list_all (\<lambda>x. all_filters (email x)) (frame_at ?s1 ?r)"
    by (simp add: frame_at_def list_all_iff)
  show ?thesis
    apply (rule exI [of _ ?r])
    apply (rule exI [of _ ?s1])
    apply (rule exI [of _ "length (frames ?s2)"])
    apply (rule exI [of _ "?s2\<lparr>frames := frames ?s2 @ [?f]\<rparr>"])
    by (intro conjI one two [unfolded same] fr la)
qed

theorem filter_twice_witness:
  "loaded (example_state [example_row, at_row]) [example_row, at_row] \<and>
   (\<exists>r s1 r2 s2.
     remove_rows_without_mail (example_state [example_row, at_row]) = (Inr r, s1) \<and>
     remove_rows_without_mail (s1\<lparr>data := Some r\<rparr>) = (Inr r2, s2) \<and>
     frame_at s2 r2 = frame_at s1 r \<and> frame_at s1 r = [example_row])"
proof -
  let ?t = "[example_row, at_row]"
  have l: "loaded (example_state ?t) ?t" by (rule loaded_example_state)
  have f: "filter (\<lambda>r. all_filters (email r)) ?t = [example_row]"
    by (simp add: all_filters_def str_contains_def str_startswith_def str_count_def
          example_row_def at_row_def)
  obtain r s1 r2 s2 where
    a: "remove_rows_without_mail (example_state ?t) = (Inr r, s1)" and
    b: "remove_rows_without_mail (s1\<lparr>data := Some r\<rparr>) = (Inr r2, s2)" and
    c: "frame_at s2 r2 = frame_at s1 r"
    using filter_twice [OF l] by blast
  note run = remove_rows_loaded [OF l, unfolded f]
  have "r = length (frames (example_state ?t))"
    and "s1 = example_state ?t\<lparr>frames := frames (example_state ?t) @ [[example_row]]\<rparr>"
    using a unfolding run by simp_all
  then have d: "frame_at s1 r = [example_row]"
    by (simp add: frame_at_def)
  have "\<exists>r s1 r2 s2.
     remove_rows_without_mail (example_state ?t) = (Inr r, s1) \<and>
     remove_rows_without_mail (s1\<lparr>data := Some r\<rparr>) = (Inr r2, s2) \<and>
     frame_at s2 r2 = frame_at s1 r \<and> frame_at s1 r = [example_row]"
    by (intro exI conjI) (rule a b c d)+
  with l show ?thesis ..
qed


subsection \<open>The age histogram\<close>

lemma age_loop_Cons:
  "age_loop xs (e # es) i (hist, bins) =
   age_loop xs es (Suc i)
     (if i < 10 then hist[i := length (filter (in_bin (e, e + 9)) xs)] else hist, bins[i := e])"
  by (simp add: value_counts_bins_def Let_def)

lemma age_loop_length:
  "length (fst (age_loop xs es i (hist, bins))) = length hist \<and>
   length (snd (age_loop xs es i (hist, bins))) = length bins"
  by (induction es arbitrary: i hist bins) (simp_all add: age_loop_Cons del: age_loop.simps(2))

lemma age_loop_hist_nth:
  "j < length hist \<Longrightarrow>
   fst (age_loop xs es i (hist, bins)) ! j =
     (if i \<le> j \<and> j < i + length es \<and> j < 10
      then length (filter (in_bin (es ! (j - i), es ! (j - i) + 9)) xs) else hist ! j)"
proof (induction es arbitrary: i hist bins)
  case Nil
  then show ?case by simp
next
  case (Cons e es)
  let ?h = "if i < 10 then hist[i := length (filter (in_bin (e, e + 9)) xs)] else hist"
  have j: "j < length ?h" using Cons.prems by simp
  show ?case
    unfolding age_loop_Cons Cons.IH [OF j]
    using Cons.prems by (auto simp: nth_list_update nth_Cons' Suc_diff_le)
qed

lemma age_loop_bins_nth:
  "j < length bins \<Longrightarrow>
   snd (age_loop xs es i (hist, bins)) ! j =
     (if i \<le> j \<and> j < i + length es then es ! (j - i) else bins ! j)"
proof (induction es arbitrary: i hist bins)
  case Nil
  then show ?case by simp
next
  case (Cons e es)
  have j: "j < length (bins[i := e])" using Cons.prems by simp
  show ?case
    unfolding age_loop_Cons Cons.IH [OF j]
    using Cons.prems by (auto simp: nth_list_update nth_Cons' Suc_diff_le)
qed


lemma in_bin_None: "\<not> in_bin b None"
  by (simp add: in_bin_def)

lemma count_sort_values:
  "length (filter (in_bin b) (sort_values ys)) = length (filter (in_bin b) ys)"
proof -
  have "length (filter (in_bin b) (map Some (sort (List.map_filter id ys)))) =
        length (filter (in_bin b \<circ> Some) (sort (List.map_filter id ys)))"
    by (simp add: filter_map)
  also have "\<dots> = length (filter (in_bin b \<circ> Some) (List.map_filter id ys))"
    by (simp add: filter_sort)
  also have "\<dots> = length (filter (in_bin b) ys)"
    by (induction ys) (auto simp: List.map_filter_simps in_bin_None split: option.splits)
  finally have a: "length (filter (in_bin b) (map Some (sort (List.map_filter id ys)))) =
      length (filter (in_bin b) ys)" .
  have b: "filter (in_bin b) (filter (\<lambda>x. x = None) ys) = []"
    by (auto simp: filter_empty_conv in_bin_None)
  have "length (filter (in_bin b) (sort_values ys)) =
        length (filter (in_bin b) (map Some (sort (List.map_filter id ys)))) +
        length (filter (in_bin b) (filter (\<lambda>x. x = None) ys))"
    by (simp only: sort_values_def filter_append length_append)
  also have "\<dots> = length (filter (in_bin b) ys)"
    by (simp only: a b list.size add_0_right)
  finally show ?thesis .
qed

lemma age_loop_run:
  assumes "length hist = 10" and "length bins = 11"
  shows "age_loop xs (map (\<lambda>k. 10 * k) [0..<11]) 0 (hist, bins) =
   (map (\<lambda>j. length (filter (in_bin (10 * j, 10 * j + 9)) xs)) [0..<10],
    map (\<lambda>k. 10 * k) [0..<11])"
proof -
  let ?es = "map (\<lambda>k. 10 * k) [0..<11]"
  let ?r = "age_loop xs ?es 0 (hist, bins)"
  have "fst ?r = map (\<lambda>j. length (filter (in_bin (10 * j, 10 * j + 9)) xs)) [0..<10]"
  proof (rule nth_equalityI)
    show "length (fst ?r) = length (map (\<lambda>j. length (filter (in_bin (10 * j, 10 * j + 9)) xs)) [0..<10])"
      by (simp add: age_loop_length assms)
  next
    fix j assume "j < length (fst ?r)"
    then have j: "j < 10" by (simp add: age_loop_length assms)
    then show "fst ?r ! j = map (\<lambda>j. length (filter (in_bin (10 * j, 10 * j + 9)) xs)) [0..<10] ! j"
      by (simp add: age_loop_hist_nth assms)
  qed
  moreover have "snd ?r = ?es"
  proof (rule nth_equalityI)
    show "length (snd ?r) = length ?es" by (simp add: age_loop_length assms)
  next
    fix j assume "j < length (snd ?r)"
    then have j: "j < 11" by (simp add: age_loop_length assms)
    then show "snd ?r ! j = ?es ! j" by (simp add: age_loop_bins_nth assms)
  qed
  ultimately show ?thesis by (simp add: prod_eq_iff)
qed

lemma show_age_loaded:
  assumes "loaded s t"
  shows "show_age_distrib s =
     (Inr (map (\<lambda>j. length (filter (\<lambda>r. in_bin (10 * j, 10 * j + 9) (astype_float (age r))) t)) [0..<10],
           map (\<lambda>k. 10 * k) [0..<11]), s)"
proof -
  obtain a where a: "data s = Some a" "frame_at s a = t"
    using assms by (auto simp: loaded_def split: option.splits)
  have c: "length (filter (in_bin b) (sort_values (map (\<lambda>r. astype_float (age r)) t))) =
           length (filter (\<lambda>r. in_bin b (astype_float (age r))) t)" for b
    by (simp add: count_sort_values filter_map comp_def)
  show ?thesis
    unfolding show_age_distrib_def by (simp add: a age_loop_run c del: age_loop.simps)
qed

lemma indicator_sum:
  assumes "distinct js" and "\<And>j k. j \<in> set js \<Longrightarrow> k \<in> set js \<Longrightarrow> P j \<Longrightarrow> P k \<Longrightarrow> j = k"
  shows "sum_list (map (\<lambda>j. if P j then 1 else 0) js) = (if list_ex P js then 1 else (0::nat))"
  using assms
proof (induction js)
  case Nil
  show ?case by simp
next
  case (Cons j js)
  have ih: "sum_list (map (\<lambda>j. if P j then 1 else 0) js) = (if list_ex P js then 1 else (0::nat))"
    using Cons by simp
  have "P j \<Longrightarrow> \<not> list_ex P js"
    using Cons.prems by (auto simp: list_ex_iff)
  then show ?case by (auto simp: ih)
qed

lemma bins_disjoint:
  "in_bin (10 * j, 10 * j + 9) x \<Longrightarrow> in_bin (10 * k, 10 * k + 9) x \<Longrightarrow> j = k"
proof (cases x)
  case None
  then show "in_bin (10 * j, 10 * j + 9) x \<Longrightarrow> j = k" by (simp add: in_bin_def)
next
  case (Some a)
  assume "in_bin (10 * j, 10 * j + 9) x" and "in_bin (10 * k, 10 * k + 9) x"
  then have "(of_nat (10 * j) :: rat) \<le> of_nat (10 * k + 9)" and "(of_nat (10 * k) :: rat) \<le> of_nat (10 * j + 9)"
    using Some by (auto simp: in_bin_def)
  then have "10 * j \<le> 10 * k + 9" and "10 * k \<le> 10 * j + 9"
    by (simp_all only: of_nat_le_iff)
  then show "j = k" by arith
qed

lemma sum_counts:
  "sum_list (map (\<lambda>j. length (filter (\<lambda>r. in_bin (10 * j, 10 * j + 9) (f r)) t)) [0..<10]) =
   length (filter (\<lambda>r. in_some_bin (f r)) t)"
proof (induction t)
  case Nil
  show ?case by simp
next
  case (Cons r t)
  have "sum_list (map (\<lambda>j. length (filter (\<lambda>r. in_bin (10 * j, 10 * j + 9) (f r)) (r # t))) [0..<10]) =
        sum_list (map (\<lambda>j. (if in_bin (10 * j, 10 * j + 9) (f r) then 1 else 0) +
                          length (filter (\<lambda>r. in_bin (10 * j, 10 * j + 9) (f r)) t)) [0..<10])"
    by (intro arg_cong [where f = sum_list] map_cong) simp_all
  also have "\<dots> = sum_list (map (\<lambda>j. if in_bin (10 * j, 10 * j + 9) (f r) then 1 else 0) [0..<10]) +
                  sum_list (map (\<lambda>j. length (filter (\<lambda>r. in_bin (10 * j, 10 * j + 9) (f r)) t)) [0..<10])"
    by (rule sum_list_addf)
  also have "sum_list (map (\<lambda>j. if in_bin (10 * j, 10 * j + 9) (f r) then 1 else 0) [0..<10]) =
             (if in_some_bin (f r) then 1 else (0::nat))"
    unfolding in_some_bin_def by (rule indicator_sum) (auto dest: bins_disjoint)
  finally show ?case by (simp add: Cons.IH)
qed

lemma in_some_bin_30: "in_some_bin (Some 30)"
  by (simp add: in_some_bin_def in_bin_def list_ex_iff) (rule bexI [of _ 3], simp_all)

lemma in_some_bin_100: "\<not> in_some_bin (Some 100)"
proof -
  have "\<not> (of_nat (10 * k) \<le> (100::rat) \<and> (100::rat) \<le> of_nat (10 * k + 9))" if "k < 10" for k :: nat
  proof -
    have "(of_nat (10 * k + 9) :: rat) < of_nat 100" using that by (simp only: of_nat_less_iff)
    then show ?thesis by simp
  qed
  then show ?thesis by (auto simp: in_some_bin_def in_bin_def list_ex_iff)
qed

text \<open>
  C2, as amended. For a loaded table \<^verbatim>\<open>show_age_distrib\<close> returns ten counts and the edges
  0, 10, .., 100. Count \<open>j\<close> is the number of rows whose age, read as a float, lies in the
  closed range from \<open>10 j\<close> to \<open>10 j + 9\<close>, and the ten counts sum to the number of rows
  whose age lies in one of these ten ranges: each such row is counted in exactly one bin. A
  missing age lies in none of them.
\<close>

theorem age_counts_sum:
  assumes "loaded s t"
  shows "\<exists>hist. show_age_distrib s = (Inr (hist, map (\<lambda>k. 10 * k) [0..<11]), s) \<and>
     length hist = 10 \<and>
     (\<forall>j<10. hist ! j =
        length (filter (\<lambda>r. in_bin (10 * j, 10 * j + 9) (astype_float (age r))) t)) \<and>
     sum_list hist = length (filter (\<lambda>r. in_some_bin (astype_float (age r))) t) \<and>
     \<not> in_some_bin None"
proof -
  let ?h = "map (\<lambda>j. length (filter (\<lambda>r. in_bin (10 * j, 10 * j + 9) (astype_float (age r))) t)) [0..<10]"
  have run: "show_age_distrib s = (Inr (?h, map (\<lambda>k. 10 * k) [0..<11]), s)"
    by (rule show_age_loaded [OF assms])
  have len: "length ?h = 10" by simp
  have nth: "\<forall>j<10. ?h ! j =
        length (filter (\<lambda>r. in_bin (10 * j, 10 * j + 9) (astype_float (age r))) t)"
    by simp
  have sum: "sum_list ?h = length (filter (\<lambda>r. in_some_bin (astype_float (age r))) t)"
    by (rule sum_counts)
  have none: "\<not> in_some_bin None"
    by (simp add: in_some_bin_def list_ex_iff in_bin_None)
  show ?thesis
    by (rule exI [of _ ?h]) (intro conjI run len nth sum none)
qed

theorem age_counts_sum_witness:
  "loaded (example_state [example_row, old_row]) [example_row, old_row] \<and>
   (\<exists>hist. show_age_distrib (example_state [example_row, old_row]) =
        (Inr (hist, map (\<lambda>k. 10 * k) [0..<11]), example_state [example_row, old_row]) \<and>
      length hist = 10 \<and> sum_list hist = 1)"
proof -
  let ?t = "[example_row, old_row]"
  have l: "loaded (example_state ?t) ?t" by (rule loaded_example_state)
  obtain hist where
    r: "show_age_distrib (example_state ?t) = (Inr (hist, map (\<lambda>k. 10 * k) [0..<11]), example_state ?t)"
    and n: "length hist = 10"
    and s: "sum_list hist = length (filter (\<lambda>r. in_some_bin (astype_float (age r))) ?t)"
    using age_counts_sum [OF l] by blast
  have "sum_list hist = 1"
    unfolding s
    by (simp add: example_row_def old_row_def astype_float_def in_some_bin_30 in_some_bin_100)
  with r n have "\<exists>hist. show_age_distrib (example_state ?t) =
        (Inr (hist, map (\<lambda>k. 10 * k) [0..<11]), example_state ?t) \<and>
      length hist = 10 \<and> sum_list hist = 1"
    by blast
  with l show ?thesis ..
qed

text \<open>
  C2, as stated, says that the counts sum to the number of rows with a non-missing age. A row
  with the age 100 has a non-missing age and is counted in no bin: the last range ends at 99.
\<close>

theorem age_100_not_counted:
  "show_age_distrib (example_state [old_row]) =
     (Inr ([0, 0, 0, 0, 0, 0, 0, 0, 0, 0], [0, 10, 20, 30, 40, 50, 60, 70, 80, 90, 100]),
      example_state [old_row]) \<and>
   astype_float (age old_row) = Some 100 \<and>
   sum_list [0, 0, 0, 0, 0, 0, 0, 0, 0, 0 :: nat] \<noteq>
     length (filter (\<lambda>r. astype_float (age r) \<noteq> None) [old_row])"
proof -
  have a: "astype_float (age old_row) = Some 100"
    by (simp add: old_row_def astype_float_def)
  have z: "\<not> in_bin (10 * j, 10 * j + 9) (Some 100)" if "j < 10" for j
  proof -
    have "(of_nat (10 * j + 9) :: rat) < of_nat 100" using that by (simp only: of_nat_less_iff)
    then show ?thesis by (simp add: in_bin_def)
  qed
  have "map (\<lambda>j. length (filter (\<lambda>r. in_bin (10 * j, 10 * j + 9) (astype_float (age r))) [old_row])) [0..<10]
        = map (\<lambda>j. 0) [0..<10]"
    by (rule map_cong) (simp_all add: a z)
  also have "\<dots> = [0, 0, 0, 0, 0, 0, 0, 0, 0, 0 :: nat]"
    by (simp add: upt_rec)
  finally have h: "map (\<lambda>j. length (filter (\<lambda>r. in_bin (10 * j, 10 * j + 9) (astype_float (age r))) [old_row])) [0..<10]
        = [0, 0, 0, 0, 0, 0, 0, 0, 0, 0 :: nat]" .
  have b: "map (\<lambda>k. 10 * k) [0..<11] = [0, 10, 20, 30, 40, 50, 60, 70, 80, 90, 100 :: nat]"
    by (simp add: upt_rec)
  have "show_age_distrib (example_state [old_row]) =
     (Inr ([0, 0, 0, 0, 0, 0, 0, 0, 0, 0], [0, 10, 20, 30, 40, 50, 60, 70, 80, 90, 100]),
      example_state [old_row])"
    using show_age_loaded [OF loaded_example_state, of "[old_row]"] unfolding h b .
  then show ?thesis by (simp add: a)
qed


subsection \<open>The scores\<close>















subsection \<open>The groups by gender and age\<close>












end
